theory Spec2Isabelle
  imports Main
begin

section \<open>The servo tracking loop of ServoAI_centerbox2.py\<close>

text \<open>
  The program keeps two module-level variables (\<open>servo_angle\<close>, \<open>servo_direction\<close>),
  two variables of \<open>run\<close> shared with the detector callback
  (\<open>detection_result_list\<close>, \<open>detection_count\<close>), and drives two outputs: the servo
  (through \<open>set_angle\<close>) and the LED. The state record holds the four variables, the LED
  level, the sequence of angles passed to \<open>set_angle\<close> so far, and the lines printed
  so far. Python integers are unbounded, so every number is an \<open>int\<close>.

  Camera capture, drawing (\<open>visualize\<close>, \<open>show_fps\<close>, \<open>imshow\<close>) and the detector itself
  are outside the embedding; the detector shows only through the calls of its callback
  \<open>save_result\<close>. The duty cycle \<open>angle / 18 + 2\<close> is a float computed from the angle
  and is represented by the angle it is computed from.
\<close>

subsection \<open>Data\<close>

record bounding_box =
  origin_x :: int
  origin_y :: int
  width :: int
  height :: int

record detection =
  bounding_box :: bounding_box

text \<open>An \<open>ObjectDetectorResult\<close>: its field \<open>detections\<close>.\<close>

type_synonym detector_result = "detection list"

record state =
  servo_angle :: int
  servo_direction :: int
  detection_result_list :: "detector_result list"
  detection_count :: int
  led :: bool
  commands :: "int list"
  stdout :: "string list"

text \<open>Lines 32, 39, 40, 100, 101: the values before the loop starts.\<close>

definition init_state :: state where
  "init_state = \<lparr>servo_angle = 0, servo_direction = 1, detection_result_list = [],
     detection_count = 0, led = False, commands = [], stdout = []\<rparr>"

subsection \<open>Actuation\<close>

text \<open>
  \<open>set_angle\<close> (lines 59-66) drives the PWM output to the duty cycle of \<open>angle\<close>,
  sleeps, and switches the pulse off again. It has no \<open>global\<close> declaration and assigns
  none of the program's variables.
\<close>

definition set_angle :: "int \<Rightarrow> state \<Rightarrow> state" where
  "set_angle angle s = s\<lparr>commands := commands s @ [angle]\<rparr>"

definition print :: "string \<Rightarrow> state \<Rightarrow> state" where
  "print line s = s\<lparr>stdout := stdout s @ [line]\<rparr>"

subsection \<open>Scan behaviour\<close>

text \<open>\<open>move_servo_continuous\<close> (lines 68-74).\<close>

definition move_servo_continuous :: "state \<Rightarrow> state" where
  "move_servo_continuous s =
     (let s1 = set_angle (servo_angle s) s;
          s2 = s1\<lparr>servo_angle := servo_angle s1 + 10 * servo_direction s1\<rparr>
      in if servo_angle s2 \<ge> 180 \<or> servo_angle s2 \<le> 0
         then s2\<lparr>servo_direction := servo_direction s2 * (- 1)\<rparr>
         else s2)"

subsection \<open>Tracking behaviour\<close>

text \<open>\<open>move_servo_to_center\<close> (lines 76-93); the tolerance is the local constant 20.\<close>

definition tolerance :: int where
  "tolerance = 20"

definition move_servo_to_center :: "int \<Rightarrow> int \<Rightarrow> int \<Rightarrow> int \<Rightarrow> state \<Rightarrow> state" where
  "move_servo_to_center bbox_center_x bbox_center_y frame_center_x frame_center_y s =
     (let s1 =
        (if \<bar>bbox_center_x - frame_center_x\<bar> > tolerance
         then (if bbox_center_x < frame_center_x
               then print ''Moving to left'' (set_angle (servo_angle s - 5) s)
               else print ''Moving to right'' (set_angle (servo_angle s + 5) s))
         else s)
      in if \<bar>bbox_center_y - frame_center_y\<bar> > tolerance
         then (if bbox_center_y < frame_center_y
               then print ''Moving up'' (set_angle (servo_angle s1 + 5) s1)
               else print ''Moving down'' (set_angle (servo_angle s1 - 5) s1))
         else s1)"

text \<open>Lines 133-135: the centre of a detection's bounding box (\<open>//\<close> is floor division).\<close>

definition bbox_center_x :: "detection \<Rightarrow> int" where
  "bbox_center_x d = origin_x (bounding_box d) + width (bounding_box d) div 2"

definition bbox_center_y :: "detection \<Rightarrow> int" where
  "bbox_center_y d = origin_y (bounding_box d) + height (bounding_box d) div 2"

text \<open>Lines 132-138: the loop over the detections of one result.\<close>

fun track_detections :: "int \<Rightarrow> int \<Rightarrow> detection list \<Rightarrow> state \<Rightarrow> state" where
  "track_detections fx fy [] s = s"
| "track_detections fx fy (d # ds) s =
     track_detections fx fy ds (move_servo_to_center (bbox_center_x d) (bbox_center_y d) fx fy s)"

subsection \<open>The detector callback\<close>

text \<open>\<open>save_result\<close> (lines 103-107).\<close>

definition save_result :: "detector_result \<Rightarrow> state \<Rightarrow> state" where
  "save_result result s =
     (let s1 = s\<lparr>detection_result_list := detection_result_list s @ [result]\<rparr>
      in if length result \<ge> 2
         then s1\<lparr>detection_count := detection_count s1 + 1\<rparr>
         else s1)"

subsection \<open>One iteration of the loop of \<open>run\<close>\<close>

text \<open>
  Lines 126-144, for a frame of the given width and height (lines 98-99 compute the
  frame centre once). In the second branch the first element of the list is read
  (\<open>detection_result_list[0]\<close>, guarded by the test that the list is not empty), and
  the whole list is cleared afterwards.
\<close>

definition tracking_cycle :: "int \<Rightarrow> int \<Rightarrow> state \<Rightarrow> state" where
  "tracking_cycle frame_width frame_height s =
     (let frame_center_x = frame_width div 2;
          frame_center_y = frame_height div 2
      in case detection_result_list s of
           first # rest \<Rightarrow>
             (let s1 = track_detections frame_center_x frame_center_y first s;
                  s2 = s1\<lparr>led := True\<rparr>;
                  s3 = s2\<lparr>detection_result_list := []\<rparr>
              in print ''Centered object'' s3)
         | [] \<Rightarrow> s\<lparr>led := False\<rparr>)"

definition run_cycle :: "int \<Rightarrow> int \<Rightarrow> state \<Rightarrow> state" where
  "run_cycle frame_width frame_height s =
     (if detection_count s < 2
      then move_servo_continuous s
      else tracking_cycle frame_width frame_height s)"

text \<open>
  The two comments of the loop name its branches "State 1" and "State 2"; the branch
  taken is decided by \<open>detection_count\<close> alone (line 126).
\<close>

datatype mode = Scanning | Tracking

definition mode_of :: "state \<Rightarrow> mode" where
  "mode_of s = (if detection_count s < 2 then Scanning else Tracking)"

text \<open>
  What the second branch does with the list, seen as an operation of its own: the result
  handed to the tracking behaviour, if any (lines 130-131), and the list after the cycle
  (line 141).
\<close>

definition mailbox_take :: "state \<Rightarrow> detector_result option \<times> state" where
  "mailbox_take s =
     (case detection_result_list s of
        first # rest \<Rightarrow> (Some first, s\<lparr>detection_result_list := []\<rparr>)
      | [] \<Rightarrow> (None, s))"

subsection \<open>Executions\<close>

text \<open>
  An execution is a finite sequence of loop iterations and callback invocations, up to
  the key press that ends the loop. The callback is taken to run between two
  iterations.
\<close>

datatype event = Publish detector_result | Cycle

fun step :: "int \<Rightarrow> int \<Rightarrow> event \<Rightarrow> state \<Rightarrow> state" where
  "step w h (Publish result) s = save_result result s"
| "step w h Cycle s = run_cycle w h s"

fun run_events :: "int \<Rightarrow> int \<Rightarrow> event list \<Rightarrow> state \<Rightarrow> state" where
  "run_events w h [] s = s"
| "run_events w h (e # es) s = run_events w h es (step w h e s)"

subsection \<open>The sweep states and sample inputs\<close>

text \<open>
  The states the sweep passes through when it starts from \<open>init_state\<close>: the angle is
  a multiple of 10 between 0 and 180, the direction is 1 or -1, and at either end of the
  range the direction points back into it.
\<close>

definition scan_start :: "state \<Rightarrow> bool" where
  "scan_start s \<longleftrightarrow>
     (servo_angle s = 0 \<and> servo_direction s = 1)
     \<or> (servo_angle s = 180 \<and> servo_direction s = - 1)
     \<or> (0 < servo_angle s \<and> servo_angle s < 180 \<and> servo_angle s mod 10 = 0
         \<and> (servo_direction s = 1 \<or> servo_direction s = - 1))"

text \<open>
  A 100 by 80 bounding box with the given centre, and an execution that ends in the
  second branch of the loop: two sweep iterations, two results of two detections each
  (both right of the frame centre), and the iteration that reads the first of them.
\<close>

definition box_around :: "int \<Rightarrow> int \<Rightarrow> detection" where
  "box_around cx cy =
     \<lparr>bounding_box = \<lparr>origin_x = cx - 50, origin_y = cy - 40, width = 100, height = 80\<rparr>\<rparr>"

definition latch_events :: "event list" where
  "latch_events =
     [Cycle, Publish [box_around 500 240, box_around 500 240],
      Cycle, Publish [box_around 500 240, box_around 500 240],
      Cycle]"

section \<open>Properties\<close>

subsection \<open>What each operation leaves unchanged\<close>

lemma set_angle_fields:
  "servo_angle (set_angle a s) = servo_angle s"
  "servo_direction (set_angle a s) = servo_direction s"
  "detection_result_list (set_angle a s) = detection_result_list s"
  "detection_count (set_angle a s) = detection_count s"
  "led (set_angle a s) = led s"
  "stdout (set_angle a s) = stdout s"
  "commands (set_angle a s) = commands s @ [a]"
  by (simp_all add: set_angle_def)

lemma print_fields:
  "servo_angle (print l s) = servo_angle s"
  "servo_direction (print l s) = servo_direction s"
  "detection_result_list (print l s) = detection_result_list s"
  "detection_count (print l s) = detection_count s"
  "led (print l s) = led s"
  "commands (print l s) = commands s"
  "stdout (print l s) = stdout s @ [l]"
  by (simp_all add: print_def)

lemma move_servo_to_center_frame:
  "servo_angle (move_servo_to_center bx by fx fy s) = servo_angle s"
  "servo_direction (move_servo_to_center bx by fx fy s) = servo_direction s"
  "detection_result_list (move_servo_to_center bx by fx fy s) = detection_result_list s"
  "detection_count (move_servo_to_center bx by fx fy s) = detection_count s"
  "led (move_servo_to_center bx by fx fy s) = led s"
  by (simp_all add: move_servo_to_center_def Let_def set_angle_fields print_fields)

lemma move_servo_to_center_commands:
  "\<exists>new. commands (move_servo_to_center bx by fx fy s) = commands s @ new
     \<and> set new \<subseteq> {servo_angle s - 5, servo_angle s + 5}"
  by (auto simp add: move_servo_to_center_def Let_def set_angle_fields print_fields)

lemma track_detections_frame:
  "servo_angle (track_detections fx fy ds s) = servo_angle s"
  "servo_direction (track_detections fx fy ds s) = servo_direction s"
  "detection_result_list (track_detections fx fy ds s) = detection_result_list s"
  "detection_count (track_detections fx fy ds s) = detection_count s"
  "led (track_detections fx fy ds s) = led s"
  by (induction ds arbitrary: s) (simp_all add: move_servo_to_center_frame)

lemma track_detections_commands:
  "\<exists>new. commands (track_detections fx fy ds s) = commands s @ new
     \<and> set new \<subseteq> {servo_angle s - 5, servo_angle s + 5}"
proof (induction ds arbitrary: s)
  case Nil
  show ?case by simp
next
  case (Cons d ds)
  let ?s1 = "move_servo_to_center (bbox_center_x d) (bbox_center_y d) fx fy s"
  obtain n1 where n1: "commands ?s1 = commands s @ n1"
      "set n1 \<subseteq> {servo_angle s - 5, servo_angle s + 5}"
    using move_servo_to_center_commands by blast
  obtain n2 where n2: "commands (track_detections fx fy ds ?s1) = commands ?s1 @ n2"
      "set n2 \<subseteq> {servo_angle ?s1 - 5, servo_angle ?s1 + 5}"
    using Cons.IH by blast
  have "commands (track_detections fx fy (d # ds) s) = commands s @ (n1 @ n2)"
    using n1 n2 by simp
  moreover have "set (n1 @ n2) \<subseteq> {servo_angle s - 5, servo_angle s + 5}"
    using n1 n2 by (simp add: move_servo_to_center_frame)
  ultimately show ?case by blast
qed

lemma save_result_frame:
  "servo_angle (save_result r s) = servo_angle s"
  "servo_direction (save_result r s) = servo_direction s"
  "led (save_result r s) = led s"
  "commands (save_result r s) = commands s"
  "stdout (save_result r s) = stdout s"
  "detection_result_list (save_result r s) = detection_result_list s @ [r]"
  "detection_count (save_result r s) = detection_count s + (if 2 \<le> length r then 1 else 0)"
  by (simp_all add: save_result_def Let_def)

lemma tracking_cycle_frame:
  "servo_angle (tracking_cycle w h s) = servo_angle s"
  "servo_direction (tracking_cycle w h s) = servo_direction s"
  "detection_count (tracking_cycle w h s) = detection_count s"
  by (simp_all add: tracking_cycle_def Let_def print_fields track_detections_frame
      split: list.splits)

lemma tracking_cycle_commands:
  "\<exists>new. commands (tracking_cycle w h s) = commands s @ new
     \<and> set new \<subseteq> {servo_angle s - 5, servo_angle s + 5}"
proof (cases "detection_result_list s")
  case Nil
  then show ?thesis by (simp add: tracking_cycle_def)
next
  case (Cons first rest)
  then show ?thesis
    using track_detections_commands [of "w div 2" "h div 2" first s]
    by (simp add: tracking_cycle_def Let_def print_fields)
qed

lemma move_servo_continuous_count:
  "detection_count (move_servo_continuous s) = detection_count s"
  by (simp add: move_servo_continuous_def Let_def set_angle_def)

lemma run_cycle_count: "detection_count (run_cycle w h s) = detection_count s"
  by (simp add: run_cycle_def move_servo_continuous_count tracking_cycle_frame)

lemma step_count_mono: "detection_count s \<le> detection_count (step w h e s)"
  by (cases e) (simp_all add: save_result_frame run_cycle_count)

lemma run_events_count_mono: "detection_count s \<le> detection_count (run_events w h es s)"
proof (induction es arbitrary: s)
  case Nil
  show ?case by simp
next
  case (Cons e es)
  have "detection_count s \<le> detection_count (step w h e s)" by (rule step_count_mono)
  also have "\<dots> \<le> detection_count (run_events w h es (step w h e s))" by (rule Cons.IH)
  finally show ?case by simp
qed

lemma run_events_tracking_stays:
  "2 \<le> detection_count s \<Longrightarrow> 2 \<le> detection_count (run_events w h es s)"
  using run_events_count_mono [of s w h es] by simp

subsection \<open>Evaluating the sample execution\<close>

lemmas eval_defs = run_cycle_def tracking_cycle_def move_servo_continuous_def
  move_servo_to_center_def save_result_def set_angle_def print_def tolerance_def
  bbox_center_x_def bbox_center_y_def box_around_def init_state_def Let_def

lemma latch_state:
  "run_events 640 480 latch_events init_state =
     \<lparr>servo_angle = 20, servo_direction = 1, detection_result_list = [],
      detection_count = 2, led = True, commands = [0, 10, 25, 25],
      stdout = [''Moving to right'', ''Moving to right'', ''Centered object'']\<rparr>"
  by (simp add: latch_events_def eval_defs)

subsection \<open>The result list\<close>

text \<open>
  C1 as stated fails: after two results are appended to the empty list, the loop reads
  the first of them, not the second.
\<close>

theorem mailbox_overwrite_counterexample:
  "fst (mailbox_take (save_result [box_around 500 240] (save_result [box_around 100 240] init_state)))
     = Some [box_around 100 240]
   \<and> fst (mailbox_take (save_result [box_around 500 240] (save_result [box_around 100 240] init_state)))
     \<noteq> Some [box_around 500 240]"
  by (simp add: mailbox_take_def save_result_def init_state_def box_around_def)

text \<open>
  C1, amended. When result \<open>b1\<close> and then result \<open>b2\<close> are delivered to an empty
  list with no iteration in between, the next iteration in the second branch reads
  \<open>b1\<close> only: never \<open>b2\<close>, never both. The list is empty afterwards, so \<open>b2\<close>
  is dropped, and the iteration is the tracking behaviour on \<open>b1\<close> followed by
  switching the LED on, clearing the list and printing.
\<close>

theorem mailbox_oldest_only:
  assumes "detection_result_list s = []"
  shows "fst (mailbox_take (save_result b2 (save_result b1 s))) = Some b1
    \<and> detection_result_list (snd (mailbox_take (save_result b2 (save_result b1 s)))) = []
    \<and> fst (mailbox_take (snd (mailbox_take (save_result b2 (save_result b1 s))))) = None
    \<and> tracking_cycle w h (save_result b2 (save_result b1 s)) =
        print ''Centered object''
          ((track_detections (w div 2) (h div 2) b1 (save_result b2 (save_result b1 s)))
             \<lparr>led := True, detection_result_list := []\<rparr>)"
  using assms by (simp add: mailbox_take_def tracking_cycle_def save_result_frame Let_def)

theorem mailbox_oldest_only_witness:
  "detection_result_list init_state = []
   \<and> fst (mailbox_take (save_result [box_around 500 240] (save_result [box_around 100 240] init_state)))
       = Some [box_around 100 240]
   \<and> commands (tracking_cycle 640 480
        (save_result [box_around 500 240] (save_result [box_around 100 240] init_state))) = [- 5]"
proof -
  have h: "detection_result_list init_state = []" by (simp add: init_state_def)
  show ?thesis
    using h mailbox_oldest_only [OF h, of "[box_around 500 240]" "[box_around 100 240]" 640 480]
    by (simp add: eval_defs)
qed

subsection \<open>The stored angle and \<open>set_angle\<close>\<close>



subsection \<open>Deadband\<close>

text \<open>
  C8. With frame centre (320, 240) and tolerance 20, a detection centred at (325, 240)
  causes no call of \<open>set_angle\<close> at all, and a detection centred at (345, 240) causes
  exactly one call, in the horizontal branch ("Moving to right"), with the stored angle
  plus 5.
\<close>

theorem deadband_correctness:
  "tolerance = 20
   \<and> move_servo_to_center 325 240 320 240 s = s
   \<and> commands (move_servo_to_center 345 240 320 240 s) = commands s @ [servo_angle s + 5]
   \<and> stdout (move_servo_to_center 345 240 320 240 s) = stdout s @ [''Moving to right'']"
  by (simp add: move_servo_to_center_def tolerance_def set_angle_def print_def)

subsection \<open>End-to-end scenario\<close>

text \<open>
  C3 as stated fails: after the latch (stored angle 20, last commanded angle 25), the
  result with one detection centred at (200, 240) in a 640 by 480 frame causes exactly
  one call, but it commands 15: the angle decreases.
\<close>

theorem end_to_end_counterexample:
  "commands (run_events 640 480 latch_events init_state) = [0, 10, 25, 25]
   \<and> servo_angle (run_events 640 480 latch_events init_state) = 20
   \<and> mode_of (run_events 640 480 latch_events init_state) = Tracking
   \<and> bbox_center_x (box_around 200 240) = 200
   \<and> bbox_center_y (box_around 200 240) = 240
   \<and> commands (run_events 640 480 (latch_events @ [Publish [box_around 200 240], Cycle])
        init_state) = [0, 10, 25, 25, 15]
   \<and> stdout (run_events 640 480 (latch_events @ [Publish [box_around 200 240], Cycle])
        init_state) = [''Moving to right'', ''Moving to right'', ''Centered object'',
                       ''Moving to left'', ''Centered object'']"
  by (simp add: latch_events_def mode_of_def eval_defs)

text \<open>
  C3, amended. In the second branch of the loop with an empty list, a delivered result
  with one detection centred at (200, 240) in a 640 by 480 frame makes the next
  iteration issue exactly one call of \<open>set_angle\<close>, in the horizontal branch
  ("Moving to left"), with the stored angle minus 5; the LED is on after the iteration
  and the stored angle is unchanged.
\<close>

theorem end_to_end_left_of_centre:
  assumes "2 \<le> detection_count s" and "detection_result_list s = []"
    and "bbox_center_x d = 200" and "bbox_center_y d = 240"
  shows "commands (run_cycle 640 480 (save_result [d] s)) = commands s @ [servo_angle s - 5]
    \<and> stdout (run_cycle 640 480 (save_result [d] s)) =
        stdout s @ [''Moving to left'', ''Centered object'']
    \<and> led (run_cycle 640 480 (save_result [d] s)) = True
    \<and> servo_angle (run_cycle 640 480 (save_result [d] s)) = servo_angle s"
  using assms
  by (simp add: run_cycle_def tracking_cycle_def move_servo_to_center_def save_result_def
      set_angle_def print_def tolerance_def Let_def)

theorem end_to_end_left_of_centre_witness:
  "2 \<le> detection_count (run_events 640 480 latch_events init_state)
   \<and> detection_result_list (run_events 640 480 latch_events init_state) = []
   \<and> bbox_center_x (box_around 200 240) = 200
   \<and> bbox_center_y (box_around 200 240) = 240
   \<and> commands (run_cycle 640 480
        (save_result [box_around 200 240] (run_events 640 480 latch_events init_state)))
      = [0, 10, 25, 25, 15]
   \<and> led (run_cycle 640 480
        (save_result [box_around 200 240] (run_events 640 480 latch_events init_state)))"
proof -
  let ?s = "run_events 640 480 latch_events init_state"
  have h1: "2 \<le> detection_count ?s" by (simp add: latch_state)
  have h2: "detection_result_list ?s = []" by (simp add: latch_state)
  have h3: "bbox_center_x (box_around 200 240) = 200"
    by (simp add: bbox_center_x_def box_around_def)
  have h4: "bbox_center_y (box_around 200 240) = 240"
    by (simp add: bbox_center_y_def box_around_def)
  show ?thesis
    using h1 h2 h3 h4 end_to_end_left_of_centre [OF h1 h2 h3 h4]
    by (simp add: latch_state)
qed

subsection \<open>Scanning and tracking\<close>

text \<open>
  C4. The loop takes the scanning branch exactly while \<open>detection_count\<close> is below 2
  and the tracking branch from then on: once the count has reached 2, it stays at least 2
  along every sequence of iterations and callback invocations, so the scanning branch is
  never taken again.
\<close>

theorem scan_track_sticky:
  "(mode_of s = Scanning \<longleftrightarrow> detection_count s < 2)
   \<and> (mode_of s = Tracking \<longleftrightarrow> 2 \<le> detection_count s)
   \<and> (mode_of s = Scanning \<longrightarrow> run_cycle w h s = move_servo_continuous s)
   \<and> (mode_of s = Tracking \<longrightarrow> run_cycle w h s = tracking_cycle w h s)
   \<and> (mode_of s = Tracking \<longrightarrow> mode_of (run_events w h es s) = Tracking)"
proof -
  have "mode_of s = Tracking \<Longrightarrow> mode_of (run_events w h es s) = Tracking"
    using run_events_tracking_stays [of s w h es]
    by (simp add: mode_of_def split: if_splits)
  then show ?thesis
    by (simp add: mode_of_def run_cycle_def)
qed

theorem scan_track_sticky_witness:
  "mode_of init_state = Scanning
   \<and> run_cycle 640 480 init_state = move_servo_continuous init_state
   \<and> mode_of (run_events 640 480 latch_events init_state) = Tracking
   \<and> run_cycle 640 480 (run_events 640 480 latch_events init_state) =
       tracking_cycle 640 480 (run_events 640 480 latch_events init_state)
   \<and> mode_of (run_events 640 480 [Publish [], Cycle, Publish [box_around 200 240], Cycle]
       (run_events 640 480 latch_events init_state)) = Tracking"
proof -
  have a: "mode_of init_state = Scanning" by (simp add: mode_of_def init_state_def)
  have b: "mode_of (run_events 640 480 latch_events init_state) = Tracking"
    by (simp add: mode_of_def latch_state)
  show ?thesis
    using a b scan_track_sticky [of init_state 640 480 "[]"]
      scan_track_sticky [of "run_events 640 480 latch_events init_state" 640 480
        "[Publish [], Cycle, Publish [box_around 200 240], Cycle]"]
    by simp
qed

subsection \<open>Sweep bounds\<close>

lemma scan_start_step:
  assumes "scan_start s"
  shows "scan_start (move_servo_continuous s)"
    and "commands (move_servo_continuous s) = commands s @ [servo_angle s]"
    and "0 \<le> servo_angle s \<and> servo_angle s \<le> 180"
    and "servo_direction s = 1 \<or> servo_direction s = - 1"
    and "servo_direction (move_servo_continuous s) =
          (if servo_angle (move_servo_continuous s) = 0
              \<or> servo_angle (move_servo_continuous s) = 180
           then - servo_direction s else servo_direction s)"
proof -
  show "commands (move_servo_continuous s) = commands s @ [servo_angle s]"
    by (simp add: move_servo_continuous_def Let_def set_angle_def)
  show "0 \<le> servo_angle s \<and> servo_angle s \<le> 180"
    using assms by (auto simp add: scan_start_def)
  show "servo_direction s = 1 \<or> servo_direction s = - 1"
    using assms by (auto simp add: scan_start_def)
  have up: "a + 10 \<le> 180" and down: "0 \<le> a - 10"
    if "0 < a" "a < 180" "a mod 10 = 0" for a :: int
    using that by presburger+
  show "scan_start (move_servo_continuous s)"
    using assms up [of "servo_angle s"] down [of "servo_angle s"]
    by (auto simp add: scan_start_def move_servo_continuous_def Let_def set_angle_def)
  show "servo_direction (move_servo_continuous s) =
          (if servo_angle (move_servo_continuous s) = 0
              \<or> servo_angle (move_servo_continuous s) = 180
           then - servo_direction s else servo_direction s)"
    using assms up [of "servo_angle s"] down [of "servo_angle s"]
    by (auto simp add: scan_start_def move_servo_continuous_def Let_def set_angle_def)
qed

lemma scan_start_funpow:
  "scan_start s \<Longrightarrow> scan_start ((move_servo_continuous ^^ n) s)"
  by (induction n) (simp_all add: scan_start_step(1))

lemma scan_commands_funpow:
  "commands ((move_servo_continuous ^^ n) s) =
     commands s @ map (\<lambda>k. servo_angle ((move_servo_continuous ^^ k) s)) [0..<n]"
  by (induction n) (simp_all add: move_servo_continuous_def Let_def set_angle_def)

text \<open>
  C5 as stated fails: from angle 0 with direction -1 the second invocation commands
  the angle -10.
\<close>

theorem scan_sweep_counterexample:
  "servo_angle (init_state\<lparr>servo_direction := - 1\<rparr>) = 0
   \<and> commands (move_servo_continuous (move_servo_continuous
        (init_state\<lparr>servo_direction := - 1\<rparr>))) = [0, - 10]"
  by (simp add: move_servo_continuous_def set_angle_def init_state_def Let_def)

text \<open>
  C5, amended. From every sweep state (angle a multiple of 10 in [0, 180], direction 1
  or -1, pointing inwards at 0 and at 180; the initial state is one), \<open>n\<close>
  invocations of \<open>move_servo_continuous\<close> command exactly the stored angles of the
  states passed through, each of them within [0, 180], and an invocation reverses the
  direction exactly when the angle it stores is 0 or 180.
\<close>

theorem scan_sweep_bounds:
  assumes "scan_start s"
  shows "commands ((move_servo_continuous ^^ n) s) =
           commands s @ map (\<lambda>k. servo_angle ((move_servo_continuous ^^ k) s)) [0..<n]
    \<and> 0 \<le> servo_angle ((move_servo_continuous ^^ n) s)
    \<and> servo_angle ((move_servo_continuous ^^ n) s) \<le> 180
    \<and> (servo_direction ((move_servo_continuous ^^ n) s) = 1
       \<or> servo_direction ((move_servo_continuous ^^ n) s) = - 1)
    \<and> servo_direction ((move_servo_continuous ^^ Suc n) s) =
        (if servo_angle ((move_servo_continuous ^^ Suc n) s) = 0
            \<or> servo_angle ((move_servo_continuous ^^ Suc n) s) = 180
         then - servo_direction ((move_servo_continuous ^^ n) s)
         else servo_direction ((move_servo_continuous ^^ n) s))"
proof -
  have inv: "scan_start ((move_servo_continuous ^^ n) s)"
    using assms by (rule scan_start_funpow)
  show ?thesis
    using scan_start_step(3-5) [OF inv] scan_commands_funpow [of n s]
    by simp
qed

theorem scan_sweep_bounds_witness:
  "scan_start init_state
   \<and> commands ((move_servo_continuous ^^ 3) init_state) = [0, 10, 20]
   \<and> servo_angle ((move_servo_continuous ^^ 18) init_state) = 180
   \<and> servo_direction ((move_servo_continuous ^^ 17) init_state) = 1
   \<and> servo_direction ((move_servo_continuous ^^ 18) init_state) = - 1"
proof -
  have h: "scan_start init_state" by (simp add: scan_start_def init_state_def)
  show ?thesis
    using h scan_sweep_bounds [OF h, of 17] scan_sweep_bounds [OF h, of 3]
    by (simp add: eval_nat_numeral move_servo_continuous_def set_angle_def init_state_def Let_def)
qed

subsection \<open>The lock streak\<close>

text \<open>
  C6. Each delivered result adds one to \<open>detection_count\<close> when it holds two or
  more detections and leaves it unchanged otherwise; over a sequence of delivered
  results the count grows by the number of results with two or more detections, so it
  never decreases.
\<close>

theorem lock_streak_monotone:
  "detection_count (save_result b s) = detection_count s + (if 2 \<le> length b then 1 else 0)
   \<and> detection_count (fold save_result bs s) =
       detection_count s + int (length (filter (\<lambda>b. 2 \<le> length b) bs))
   \<and> detection_count s \<le> detection_count (fold save_result bs s)"
proof -
  have one: "detection_count (save_result b s) =
      detection_count s + (if 2 \<le> length b then 1 else 0)" for b s
    by (simp add: save_result_def Let_def)
  have many: "detection_count (fold save_result bs s) =
      detection_count s + int (length (filter (\<lambda>b. 2 \<le> length b) bs))"
    by (induction bs arbitrary: s) (simp_all add: one)
  show ?thesis using one [of b s] many by simp
qed

subsection \<open>The indicator\<close>

text \<open>
  C7 at a result without detections. After the latch and one iteration on the empty list
  (LED off), a result whose list of detections is empty is delivered; the next iteration
  reads it and switches the LED on, although no detection was made.
\<close>

theorem indicator_on_for_empty_result:
  "mode_of (run_events 640 480 (latch_events @ [Cycle]) init_state) = Tracking
   \<and> led (run_events 640 480 (latch_events @ [Cycle]) init_state) = False
   \<and> fst (mailbox_take (run_events 640 480 (latch_events @ [Cycle, Publish []]) init_state))
       = Some []
   \<and> led (run_events 640 480 (latch_events @ [Cycle, Publish [], Cycle]) init_state) = True"
  by (simp add: latch_events_def mode_of_def mailbox_take_def eval_defs)

subsection \<open>An iteration on the empty list\<close>

text \<open>
  C9. An iteration in the second branch that finds the list empty changes nothing but
  the LED, which it switches off: no angle is commanded, and the stored angle, the
  direction, the count and the list stay as they are.
\<close>

theorem empty_mailbox_cycle:
  assumes "2 \<le> detection_count s" and "detection_result_list s = []"
  shows "run_cycle w h s = s\<lparr>led := False\<rparr>"
  using assms by (simp add: run_cycle_def tracking_cycle_def)

theorem empty_mailbox_cycle_witness:
  "2 \<le> detection_count (run_events 640 480 latch_events init_state)
   \<and> detection_result_list (run_events 640 480 latch_events init_state) = []
   \<and> led (run_events 640 480 latch_events init_state) = True
   \<and> run_cycle 640 480 (run_events 640 480 latch_events init_state) =
       (run_events 640 480 latch_events init_state)\<lparr>led := False\<rparr>"
proof -
  let ?s = "run_events 640 480 latch_events init_state"
  have h1: "2 \<le> detection_count ?s" by (simp add: latch_state)
  have h2: "detection_result_list ?s = []" by (simp add: latch_state)
  show ?thesis
    using h1 h2 empty_mailbox_cycle [OF h1 h2, of 640 480] by (simp add: latch_state)
qed

subsection \<open>The stored angle while tracking\<close>

lemma step_tracking:
  assumes "2 \<le> detection_count s"
  shows "2 \<le> detection_count (step w h e s)"
    and "servo_angle (step w h e s) = servo_angle s"
    and "servo_direction (step w h e s) = servo_direction s"
    and "\<exists>new. commands (step w h e s) = commands s @ new
           \<and> set new \<subseteq> {servo_angle s - 5, servo_angle s + 5}"
proof -
  show "2 \<le> detection_count (step w h e s)"
    using assms step_count_mono [of s w h e] by simp
  show "servo_angle (step w h e s) = servo_angle s"
    using assms by (cases e) (simp_all add: save_result_frame run_cycle_def tracking_cycle_frame)
  show "servo_direction (step w h e s) = servo_direction s"
    using assms by (cases e) (simp_all add: save_result_frame run_cycle_def tracking_cycle_frame)
  show "\<exists>new. commands (step w h e s) = commands s @ new
           \<and> set new \<subseteq> {servo_angle s - 5, servo_angle s + 5}"
    using assms tracking_cycle_commands [of w h s]
    by (cases e) (simp_all add: save_result_frame run_cycle_def)
qed

lemma run_events_tracking:
  assumes "2 \<le> detection_count s"
  shows "servo_angle (run_events w h es s) = servo_angle s
    \<and> servo_direction (run_events w h es s) = servo_direction s
    \<and> (\<exists>new. commands (run_events w h es s) = commands s @ new
           \<and> set new \<subseteq> {servo_angle s - 5, servo_angle s + 5})"
  using assms
proof (induction es arbitrary: s)
  case Nil
  show ?case by simp
next
  case (Cons e es)
  let ?s1 = "step w h e s"
  note st = step_tracking [OF Cons.prems, of w h e]
  obtain n1 where n1: "commands ?s1 = commands s @ n1"
      "set n1 \<subseteq> {servo_angle s - 5, servo_angle s + 5}"
    using st(4) by blast
  note ih = Cons.IH [OF st(1)]
  obtain n2 where n2: "commands (run_events w h es ?s1) = commands ?s1 @ n2"
      "set n2 \<subseteq> {servo_angle ?s1 - 5, servo_angle ?s1 + 5}"
    using ih by blast
  have "commands (run_events w h (e # es) s) = commands s @ (n1 @ n2)"
    using n1 n2 by simp
  moreover have "set (n1 @ n2) \<subseteq> {servo_angle s - 5, servo_angle s + 5}"
    using n1 n2 st(2) by simp
  ultimately have "\<exists>new. commands (run_events w h (e # es) s) = commands s @ new
      \<and> set new \<subseteq> {servo_angle s - 5, servo_angle s + 5}"
    by blast
  then show ?case using ih st(2,3) by simp
qed

text \<open>
  C10. \<open>set_angle\<close> and \<open>move_servo_to_center\<close> leave the stored angle unchanged.
  Once \<open>detection_count\<close> has reached 2, every sequence of iterations and callback
  invocations keeps the stored angle at the value it had, and every angle commanded from
  then on is that value minus 5 or that value plus 5.
\<close>

theorem tracking_angle_frozen:
  assumes "2 \<le> detection_count s"
  shows "servo_angle (set_angle a s) = servo_angle s
    \<and> servo_angle (move_servo_to_center bx by fx fy s) = servo_angle s
    \<and> servo_angle (run_events w h es s) = servo_angle s
    \<and> (\<exists>new. commands (run_events w h es s) = commands s @ new
           \<and> set new \<subseteq> {servo_angle s - 5, servo_angle s + 5})"
  using run_events_tracking [OF assms, of w h es]
  by (simp add: set_angle_fields move_servo_to_center_frame)

theorem tracking_angle_frozen_witness:
  "2 \<le> detection_count (run_events 640 480 latch_events init_state)
   \<and> servo_angle (run_events 640 480 latch_events init_state) = 20
   \<and> servo_angle (run_events 640 480
        [Publish [box_around 200 240], Cycle, Publish [box_around 500 400, box_around 100 100], Cycle]
        (run_events 640 480 latch_events init_state)) = 20
   \<and> commands (run_events 640 480
        [Publish [box_around 200 240], Cycle, Publish [box_around 500 400, box_around 100 100], Cycle]
        (run_events 640 480 latch_events init_state)) = [0, 10, 25, 25] @ [15, 25, 15, 15, 25]"
proof -
  let ?s = "run_events 640 480 latch_events init_state"
  have h: "2 \<le> detection_count ?s" by (simp add: latch_state)
  show ?thesis
    using h tracking_angle_frozen [OF h, of 0 0 0 0 0 640 480
        "[Publish [box_around 200 240], Cycle, Publish [box_around 500 400, box_around 100 100], Cycle]"]
    unfolding latch_state by (simp add: eval_defs)
qed

end
